theory Spec2Isabelle
  imports Main "HOL-Library.Multiset"
begin

section \<open>JavaScript built-ins used by the tracker\<close>

text \<open>
  The tracker is TypeScript on Node. Three families of built-ins decide what it computes:
  the \<^verbatim>\<open>Date\<close> object, number-to-string conversion with \<^verbatim>\<open>padStart\<close>, and the byte-wise
  comparison of \<^verbatim>\<open>TEXT\<close> values in SQLite. They are written out here after ECMA-262
  (time values are integral milliseconds since the epoch, days are counted in the
  proleptic Gregorian calendar) so that every function of the repository below can be
  evaluated on concrete input.

  The machine's local time zone is a parameter \<open>tz\<close>: the offset of local time from UTC in
  minutes, positive east of Greenwich. A fixed offset is a zone without daylight saving.
  A \<^verbatim>\<open>Date\<close> object is represented by its time value; the invalid date is not represented.
\<close>

definition msPerDay :: int where
  "msPerDay = 86400000"

definition msPerHour :: int where
  "msPerHour = 3600000"

definition msPerMinute :: int where
  "msPerMinute = 60000"

definition Day :: "int \<Rightarrow> int" where
  "Day t = t div msPerDay"

text \<open>Year, month (1 to 12) and day of the month of a day number (day 0 is 1970-01-01).\<close>

definition civil_from_days :: "int \<Rightarrow> int \<times> int \<times> int" where
  "civil_from_days days =
     (let z = days + 719468;
          era = z div 146097;
          doe = z - era * 146097;
          yoe = (doe - doe div 1460 + doe div 36524 - doe div 146096) div 365;
          y = yoe + era * 400;
          doy = doe - (365 * yoe + yoe div 4 - yoe div 100);
          mp = (5 * doy + 2) div 153;
          d = doy - (153 * mp + 2) div 5 + 1;
          m = (if mp < 10 then mp + 3 else mp - 9)
      in (if m \<le> 2 then y + 1 else y, m, d))"

text \<open>The day number of the given day of the given month (1 to 12) of the given year.\<close>

definition days_from_civil :: "int \<Rightarrow> int \<Rightarrow> int \<Rightarrow> int" where
  "days_from_civil y m d =
     (let y' = (if m \<le> 2 then y - 1 else y);
          era = y' div 400;
          yoe = y' - era * 400;
          doy = (153 * (if m > 2 then m - 3 else m + 9) + 2) div 5 + d - 1;
          doe = yoe * 365 + yoe div 4 - yoe div 100 + doy
      in era * 146097 + doe - 719468)"

definition YearFromTime :: "int \<Rightarrow> int" where
  "YearFromTime t = fst (civil_from_days (Day t))"

text \<open>\<^verbatim>\<open>MonthFromTime\<close> is zero-based, as in JavaScript.\<close>

definition MonthFromTime :: "int \<Rightarrow> int" where
  "MonthFromTime t = fst (snd (civil_from_days (Day t))) - 1"

definition DateFromTime :: "int \<Rightarrow> int" where
  "DateFromTime t = snd (snd (civil_from_days (Day t)))"

definition HourFromTime :: "int \<Rightarrow> int" where
  "HourFromTime t = (t div msPerHour) mod 24"

text \<open>
  \<^verbatim>\<open>MakeDay(year, month, date)\<close>: the month is zero-based and carries into the year; the
  date counts from the first of the month, so that date 0 is the last day of the month
  before.
\<close>

definition MakeDay :: "int \<Rightarrow> int \<Rightarrow> int \<Rightarrow> int" where
  "MakeDay year month date =
     days_from_civil (year + month div 12) (month mod 12 + 1) 1 + date - 1"

text \<open>Both \<^verbatim>\<open>Date.UTC\<close> and the \<^verbatim>\<open>Date\<close> constructor read a year from 0 to 99 as 1900 + year.\<close>

definition fullYear :: "int \<Rightarrow> int" where
  "fullYear y = (if 0 \<le> y \<and> y \<le> 99 then 1900 + y else y)"

text \<open>\<^verbatim>\<open>Date.UTC(year, month, day, 0, 0, 0, 0)\<close>.\<close>

definition Date_UTC :: "int \<Rightarrow> int \<Rightarrow> int \<Rightarrow> int" where
  "Date_UTC year month day = MakeDay (fullYear year) month day * msPerDay"

definition LocalTime :: "int \<Rightarrow> int \<Rightarrow> int" where
  "LocalTime tz t = t + tz * msPerMinute"

text \<open>\<^verbatim>\<open>new Date(year, month, day)\<close>: midnight of that day in local time.\<close>

definition Date_local :: "int \<Rightarrow> int \<Rightarrow> int \<Rightarrow> int \<Rightarrow> int" where
  "Date_local tz year month day = MakeDay (fullYear year) month day * msPerDay - tz * msPerMinute"

definition getFullYear :: "int \<Rightarrow> int \<Rightarrow> int" where
  "getFullYear tz t = YearFromTime (LocalTime tz t)"

definition getMonth :: "int \<Rightarrow> int \<Rightarrow> int" where
  "getMonth tz t = MonthFromTime (LocalTime tz t)"

definition getDate :: "int \<Rightarrow> int \<Rightarrow> int" where
  "getDate tz t = DateFromTime (LocalTime tz t)"

definition getUTCFullYear :: "int \<Rightarrow> int" where
  "getUTCFullYear t = YearFromTime t"

definition getUTCMonth :: "int \<Rightarrow> int" where
  "getUTCMonth t = MonthFromTime t"

definition getUTCDate :: "int \<Rightarrow> int" where
  "getUTCDate t = DateFromTime t"

definition getUTCHours :: "int \<Rightarrow> int" where
  "getUTCHours t = HourFromTime t"

text \<open>
  A number is a time value when \<^verbatim>\<open>new Date(t)\<close> is a valid date; \<^verbatim>\<open>toISOString\<close> raises
  \<^verbatim>\<open>RangeError\<close> on any other.
\<close>

definition valid_time :: "int \<Rightarrow> bool" where
  "valid_time t = (\<bar>t\<bar> \<le> 8640000000000000)"

subsection \<open>Numbers as strings\<close>

definition digit :: "nat \<Rightarrow> char" where
  "digit n = ''0123456789'' ! (n mod 10)"

function String_nat :: "nat \<Rightarrow> string" where
  "String_nat n =
     (if n < 10 then [digit n] else String_nat (n div 10) @ [digit (n mod 10)])"
  by pat_completeness auto
termination
  by (relation "measure id") auto

declare String_nat.simps [simp del]

text \<open>\<^verbatim>\<open>String(n)\<close>, which is also what a template literal writes for an integer.\<close>

definition String_int :: "int \<Rightarrow> string" where
  "String_int i = (if i < 0 then CHR ''-'' # String_nat (nat (- i)) else String_nat (nat i))"

definition padStart :: "nat \<Rightarrow> char \<Rightarrow> string \<Rightarrow> string" where
  "padStart n c s = replicate (n - length s) c @ s"

text \<open>
  The year of \<^verbatim>\<open>toISOString\<close>: four digits from 0 to 9999, otherwise a sign and six
  digits.
\<close>

definition isoYear :: "int \<Rightarrow> string" where
  "isoYear y =
     (if 0 \<le> y \<and> y \<le> 9999 then padStart 4 CHR ''0'' (String_nat (nat y))
      else (if y < 0 then CHR ''-'' else CHR ''+'') # padStart 6 CHR ''0'' (String_nat (nat \<bar>y\<bar>)))"

text \<open>\<^verbatim>\<open>date.toISOString().split('T')[0]\<close>: the UTC calendar date.\<close>

definition toISODate :: "int \<Rightarrow> string" where
  "toISODate t =
     (case civil_from_days (Day t) of
        (y, m, d) \<Rightarrow>
          isoYear y @ ''-'' @ padStart 2 CHR ''0'' (String_int m) @ ''-''
            @ padStart 2 CHR ''0'' (String_int d))"

subsection \<open>Comparison of text in SQLite\<close>

text \<open>
  The default collation compares byte by byte; a proper prefix is smaller than its
  extensions.
\<close>

fun text_le :: "string \<Rightarrow> string \<Rightarrow> bool" where
  "text_le [] ys = True"
| "text_le (x # xs) [] = False"
| "text_le (x # xs) (y # ys) =
     ((of_char x :: nat) < of_char y \<or> (x = y \<and> text_le xs ys))"

section \<open>Domain model\<close>

text \<open>
  \<^verbatim>\<open>Keystroke\<close> of \<^verbatim>\<open>models.ts\<close>: the identifier is optional; the store assigns it.
\<close>

record Keystroke =
  id_opt :: "nat option"
  keyCode :: int
  keyName :: string
  timestamp :: int

record KeyStats =
  ks_keyName :: string
  ks_count :: int

text \<open>The failures of the repository and of the services, one constructor per message.\<close>

datatype error =
    NotInitialized    \<comment> \<open>\<^verbatim>\<open>Database not initialized\<close>\<close>
  | WriteFailed       \<comment> \<open>SQLite reports an error on the insert or the commit\<close>
  | RangeError        \<comment> \<open>\<^verbatim>\<open>toISOString\<close> on an invalid date\<close>
  | CopyFailed        \<comment> \<open>\<^verbatim>\<open>fs.copyFile\<close> cannot read its source\<close>
  | SchemaNotFound    \<comment> \<open>\<^verbatim>\<open>schema.sql not found\<close>\<close>
  | BackupNotFound    \<comment> \<open>\<^verbatim>\<open>Backup file not found\<close>\<close>
  | InvalidPeriod     \<comment> \<open>\<^verbatim>\<open>Month must be between 1 and 12\<close>\<close>

section \<open>KeystrokeRepository\<close>

text \<open>
  One row of table \<^verbatim>\<open>keystrokes\<close> and one of table \<^verbatim>\<open>backups\<close> of \<^verbatim>\<open>schema.sql\<close> (the
  identifier of a backup row is never read).
\<close>

record row =
  row_id :: nat
  key_code :: int
  key_name :: string
  row_timestamp :: int
  date :: string
  hour :: int

record backup_row =
  backup_path :: string
  created_at :: int

text \<open>
  The contents of one SQLite file: the two tables and the \<^verbatim>\<open>AUTOINCREMENT\<close> counter of
  \<^verbatim>\<open>keystrokes\<close>, which lives in the file and is not reset by a delete.
\<close>

record database =
  keystrokes :: "row list"
  backups :: "backup_row list"
  seq :: nat

definition empty_database :: database where
  "empty_database = \<lparr>keystrokes = [], backups = [], seq = 0\<rparr>"

text \<open>
  The repository object and the disk it works on: \<open>db\<close> is whether the connection is open
  (\<^verbatim>\<open>this.db\<close> is not null), \<open>files\<close> maps a path to the database file stored there, and
  \<open>schemaFound\<close> is whether \<^verbatim>\<open>schema.sql\<close> is at one of the places \<^verbatim>\<open>initialize\<close> looks in.
  The open connection reads and writes the file at \<open>dbPath\<close>.
\<close>

record repo =
  db :: bool
  dbPath :: string
  files :: "string \<rightharpoonup> database"
  schemaFound :: bool

definition contents :: "repo \<Rightarrow> database" where
  "contents st = (case files st (dbPath st) of Some d \<Rightarrow> d | None \<Rightarrow> empty_database)"

definition write_db :: "database \<Rightarrow> repo \<Rightarrow> repo" where
  "write_db d st = st\<lparr>files := (files st)(dbPath st \<mapsto> d)\<rparr>"

text \<open>
  \<^verbatim>\<open>initialize\<close>: opening creates the file when there is none; the schema is
  \<^verbatim>\<open>CREATE ... IF NOT EXISTS\<close> throughout and leaves existing tables alone. The handle is
  assigned before the schema is looked for.
\<close>

definition initialize :: "repo \<Rightarrow> (error + unit) \<times> repo" where
  "initialize st =
     (let st' = write_db (contents st) (st\<lparr>db := True\<rparr>)
      in if schemaFound st then (Inr (), st') else (Inl SchemaNotFound, st'))"

text \<open>The row that \<^verbatim>\<open>save\<close> inserts for a keystroke: date and hour are read in UTC.\<close>

definition mk_row :: "nat \<Rightarrow> Keystroke \<Rightarrow> row" where
  "mk_row i k =
     \<lparr>row_id = i, key_code = keyCode k, key_name = keyName k, row_timestamp = timestamp k,
      date = toISODate (timestamp k), hour = getUTCHours (timestamp k)\<rparr>"

fun insert_all :: "Keystroke list \<Rightarrow> database \<Rightarrow> database" where
  "insert_all [] d = d"
| "insert_all (k # ks) d =
     insert_all ks (d\<lparr>keystrokes := keystrokes d @ [mk_row (Suc (seq d)) k], seq := Suc (seq d)\<rparr>)"

text \<open>
  \<^verbatim>\<open>save\<close>. The batch is one transaction. \<open>fault\<close> is the environment: whether SQLite
  reports an error for this transaction, in which case it is rolled back and the promise
  rejects. A timestamp that is no time value makes \<^verbatim>\<open>toISOString\<close> raise before anything is
  committed.
\<close>

definition save :: "bool \<Rightarrow> Keystroke list \<Rightarrow> repo \<Rightarrow> (error + unit) \<times> repo" where
  "save fault ks st =
     (if \<not> db st then (Inl NotInitialized, st)
      else if ks = [] then (Inr (), st)
      else if \<not> list_all (\<lambda>k. valid_time (timestamp k)) ks then (Inl RangeError, st)
      else if fault then (Inl WriteFailed, st)
      else (Inr (), write_db (insert_all ks (contents st)) st))"

text \<open>
  \<^verbatim>\<open>getByDateRange\<close>: the arguments are the time values of the two dates. Rows with equal
  timestamps come in an order SQL does not fix; the model keeps insertion order.
\<close>

definition to_Keystroke :: "row \<Rightarrow> Keystroke" where
  "to_Keystroke r =
     \<lparr>id_opt = Some (row_id r), keyCode = key_code r, keyName = key_name r,
      timestamp = row_timestamp r\<rparr>"

definition getByDateRange :: "int \<Rightarrow> int \<Rightarrow> repo \<Rightarrow> error + Keystroke list" where
  "getByDateRange start end st =
     (if \<not> db st then Inl NotInitialized
      else Inr (map to_Keystroke
             (sort_key row_timestamp
                (filter (\<lambda>r. start \<le> row_timestamp r \<and> row_timestamp r \<le> end)
                   (keystrokes (contents st))))))"

text \<open>
  \<^verbatim>\<open>SELECT key_name, COUNT(*) ... GROUP BY key_name ORDER BY count DESC\<close>: one entry per
  name with the number of its rows, the larger count first. The order among equal counts
  is not fixed by SQL; the model sorts stably, from the names in the order of their last
  rows.
\<close>

definition group_by_key_name :: "row list \<Rightarrow> KeyStats list" where
  "group_by_key_name rows =
     map (\<lambda>n. \<lparr>ks_keyName = n, ks_count = int (length (filter (\<lambda>r. key_name r = n) rows))\<rparr>)
       (remdups (map key_name rows))"

definition order_by_count_desc :: "KeyStats list \<Rightarrow> KeyStats list" where
  "order_by_count_desc xs = sort_key (\<lambda>s. - ks_count s) xs"

definition stats_where :: "(row \<Rightarrow> bool) \<Rightarrow> repo \<Rightarrow> KeyStats list" where
  "stats_where cond st =
     order_by_count_desc (group_by_key_name (filter cond (keystrokes (contents st))))"

datatype period = per_day | per_month | per_year

text \<open>
  \<^verbatim>\<open>getStatsByPeriod\<close>. The day is read from the anchor with \<^verbatim>\<open>toISOString\<close>; month and
  year are read with \<^verbatim>\<open>getFullYear\<close> and \<^verbatim>\<open>getMonth\<close>, which answer in local time.
\<close>

definition getStatsByPeriod :: "int \<Rightarrow> period \<Rightarrow> int \<Rightarrow> repo \<Rightarrow> error + KeyStats list" where
  "getStatsByPeriod tz p anchor st =
     (if \<not> db st then Inl NotInitialized
      else (case p of
          per_day \<Rightarrow>
            (let dateStr = toISODate anchor
             in Inr (stats_where (\<lambda>r. date r = dateStr) st))
        | per_month \<Rightarrow>
            (let y = getFullYear tz anchor;
                 m = getMonth tz anchor + 1;
                 startDate = String_int y @ ''-'' @ padStart 2 CHR ''0'' (String_int m) @ ''-01'';
                 lastDay = getDate tz (Date_local tz y m 0);
                 endDate = String_int y @ ''-'' @ padStart 2 CHR ''0'' (String_int m) @ ''-''
                           @ padStart 2 CHR ''0'' (String_int lastDay)
             in Inr (stats_where (\<lambda>r. text_le startDate (date r) \<and> text_le (date r) endDate) st))
        | per_year \<Rightarrow>
            (let y = getFullYear tz anchor;
                 startDate = String_int y @ ''-01-01'';
                 endDate = String_int y @ ''-12-31''
             in Inr (stats_where (\<lambda>r. text_le startDate (date r) \<and> text_le (date r) endDate) st))))"

text \<open>\<^verbatim>\<open>clear\<close>: \<^verbatim>\<open>DELETE FROM keystrokes\<close>; the table of backups is not touched.\<close>

definition clear :: "repo \<Rightarrow> (error + unit) \<times> repo" where
  "clear st =
     (if \<not> db st then (Inl NotInitialized, st)
      else (Inr (), write_db ((contents st)\<lparr>keystrokes := []\<rparr>) st))"

text \<open>
  \<^verbatim>\<open>backup\<close>: \<open>now\<close> is the reading of \<^verbatim>\<open>Date.now()\<close>. The database file is copied first;
  the row in \<^verbatim>\<open>backups\<close> is inserted into the live database after the copy.
\<close>

definition backup :: "int \<Rightarrow> repo \<Rightarrow> (error + string) \<times> repo" where
  "backup now st =
     (if \<not> db st then (Inl NotInitialized, st)
      else
        (let backupPath = dbPath st @ ''.backup.'' @ String_int now
         in case files st (dbPath st) of
              None \<Rightarrow> (Inl CopyFailed, st)
            | Some d \<Rightarrow>
                (let st1 = st\<lparr>files := (files st)(backupPath \<mapsto> d)\<rparr>
                 in (Inr backupPath,
                     write_db ((contents st1)\<lparr>backups := backups (contents st1)
                                  @ [\<lparr>backup_path = backupPath, created_at = now\<rparr>]\<rparr>) st1))))"

text \<open>
  \<^verbatim>\<open>restore\<close>: the existence check comes first; then the connection is closed, the
  backup is copied over the database file, and \<^verbatim>\<open>initialize\<close> reopens it.
\<close>

definition restore :: "string \<Rightarrow> repo \<Rightarrow> (error + unit) \<times> repo" where
  "restore backupPath st =
     (if \<not> db st then (Inl NotInitialized, st)
      else (case files st backupPath of
          None \<Rightarrow> (Inl BackupNotFound, st)
        | Some snapshot \<Rightarrow>
            initialize (st\<lparr>db := False, files := (files st)(dbPath st \<mapsto> snapshot)\<rparr>)))"

text \<open>\<^verbatim>\<open>getBackups\<close>: newest first, only those whose file is still there.\<close>

definition getBackups :: "repo \<Rightarrow> error + backup_row list" where
  "getBackups st =
     (if \<not> db st then Inl NotInitialized
      else Inr (filter (\<lambda>r. files st (backup_path r) \<noteq> None)
             (sort_key (\<lambda>r. - created_at r) (backups (contents st)))))"

definition close :: "repo \<Rightarrow> (error + unit) \<times> repo" where
  "close st = (if \<not> db st then (Inr (), st) else (Inr (), st\<lparr>db := False\<rparr>))"

section \<open>KeystrokeBuffer\<close>

text \<open>
  The buffer object. The flush timer only decides when \<^verbatim>\<open>flush\<close> is called and is not part
  of the state.
\<close>

record buffer_state =
  buffer :: "Keystroke list"
  isFlushingInProgress :: bool

definition maxSize :: nat where
  "maxSize = 100"

definition maxRetries :: nat where
  "maxRetries = 3"

definition retryDelay :: int where
  "retryDelay = 1000"

text \<open>
  What a flush does to the outside, in order: a call of \<^verbatim>\<open>repository.save\<close> with a batch,
  a wait of so many milliseconds, the \<^verbatim>\<open>flushed\<close> event with its count.
\<close>

datatype event = Attempt "Keystroke list" | Wait int | Flushed nat

text \<open>
  \<^verbatim>\<open>flushWithRetry\<close>. \<open>faults\<close> is the environment: its head says whether SQLite fails the
  transaction of this attempt, its tail is for the attempts after it (none left: no fault).
\<close>

definition fault_now :: "bool list \<Rightarrow> bool" where
  "fault_now faults = (case faults of [] \<Rightarrow> False | f # fs \<Rightarrow> f)"

function flushWithRetry ::
  "bool list \<Rightarrow> Keystroke list \<Rightarrow> nat \<Rightarrow> repo \<Rightarrow> (error + unit) \<times> repo \<times> event list" where
  "flushWithRetry faults ks attempt st =
     (case save (fault_now faults) ks st of
        (Inr u, st') \<Rightarrow> (Inr (), st', [Attempt ks, Flushed (length ks)])
      | (Inl e, st') \<Rightarrow>
          (if attempt < maxRetries then
             (case flushWithRetry (tl faults) ks (attempt + 1) st' of
                (r, st'', tr) \<Rightarrow>
                  (r, st'', Attempt ks # Wait (retryDelay * 2 ^ attempt) # tr))
           else (Inl e, st', [Attempt ks])))"
  by pat_completeness auto
termination
  by (relation "measure (\<lambda>(faults, ks, attempt, st). maxRetries - attempt)") auto

declare flushWithRetry.simps [simp del]

text \<open>
  \<^verbatim>\<open>add\<close> while a flush is in progress: the keystroke is pushed, and the flush that \<^verbatim>\<open>add\<close>
  starts returns at once because \<^verbatim>\<open>isFlushingInProgress\<close> is set.
\<close>

definition push :: "Keystroke \<Rightarrow> buffer_state \<Rightarrow> buffer_state" where
  "push k b = b\<lparr>buffer := buffer b @ [k]\<rparr>"

text \<open>
  \<^verbatim>\<open>flush\<close>. \<open>arrivals\<close> are the keystrokes that \<^verbatim>\<open>add\<close> receives while the flush awaits its
  writes and delays, in order of arrival. \<^verbatim>\<open>unshift(...keystrokesToFlush)\<close> puts the batch
  back in front of them.
\<close>

definition flush ::
  "bool list \<Rightarrow> Keystroke list \<Rightarrow> buffer_state \<Rightarrow> repo \<Rightarrow> buffer_state \<times> repo \<times> event list" where
  "flush faults arrivals b st =
     (if isFlushingInProgress b then (b, st, [])
      else if buffer b = [] then (b, st, [])
      else
        (let keystrokesToFlush = buffer b;
             b1 = b\<lparr>isFlushingInProgress := True, buffer := []\<rparr>
         in case flushWithRetry faults keystrokesToFlush 0 st of
              (r, st', tr) \<Rightarrow>
                (let b2 = fold push arrivals b1
                 in case r of
                      Inr u \<Rightarrow> (b2\<lparr>isFlushingInProgress := False\<rparr>, st', tr)
                    | Inl e \<Rightarrow>
                        (b2\<lparr>buffer := keystrokesToFlush @ buffer b2,
                            isFlushingInProgress := False\<rparr>, st', tr))))"

text \<open>\<^verbatim>\<open>add\<close> on an idle buffer: push, then flush.\<close>

definition add ::
  "bool list \<Rightarrow> Keystroke list \<Rightarrow> Keystroke \<Rightarrow> buffer_state \<Rightarrow> repo
   \<Rightarrow> buffer_state \<times> repo \<times> event list" where
  "add faults arrivals k b st = flush faults arrivals (push k b) st"

definition size_buffer :: "buffer_state \<Rightarrow> nat" where
  "size_buffer b = length (buffer b)"

section \<open>StatisticsService\<close>

record DailyStats =
  d_date :: int
  d_totalKeystrokes :: int
  d_keyBreakdown :: "KeyStats list"

record DayCount =
  dc_date :: int
  dc_count :: int

record MonthlyStats =
  m_year :: int
  m_month :: int
  m_totalKeystrokes :: int
  m_dailyTrend :: "DayCount list"
  m_keyBreakdown :: "KeyStats list"

record MonthCount =
  mc_month :: int
  mc_count :: int

record YearlyStats =
  y_year :: int
  y_totalKeystrokes :: int
  y_monthlyTrend :: "MonthCount list"
  y_keyBreakdown :: "KeyStats list"

text \<open>
  The cache is one \<^verbatim>\<open>Map<string, CacheEntry<any>>\<close>: whatever object is stored under a key
  is what a hit returns. The three shapes of stored object are the three constructors.
\<close>

datatype cached = Daily DailyStats | Monthly MonthlyStats | Yearly YearlyStats

record CacheEntry =
  data :: cached
  expiresAt :: int

text \<open>
  The state of the service: the cache, and a trace of the calls made to
  \<^verbatim>\<open>repository.getStatsByPeriod\<close> (the trace is not a field of the class; it records the
  effect on the collaborator).
\<close>

record service =
  cache :: "string \<rightharpoonup> CacheEntry"
  queries :: "(period \<times> int) list"

definition CACHE_TTL_MS :: int where
  "CACHE_TTL_MS = 5 * 60 * 1000"

fun join_colon :: "string list \<Rightarrow> string" where
  "join_colon [] = []"
| "join_colon [s] = s"
| "join_colon (s # t # ts) = s @ '':'' @ join_colon (t # ts)"

definition getCacheKey :: "string \<Rightarrow> int list \<Rightarrow> string" where
  "getCacheKey type params = type @ '':'' @ join_colon (map String_int params)"

text \<open>\<open>now\<close> is the reading of \<^verbatim>\<open>Date.now()\<close> during the call.\<close>

definition getFromCache :: "int \<Rightarrow> string \<Rightarrow> service \<Rightarrow> cached option \<times> service" where
  "getFromCache now key svc =
     (case cache svc key of
        None \<Rightarrow> (None, svc)
      | Some entry \<Rightarrow>
          if now > expiresAt entry then (None, svc\<lparr>cache := (cache svc)(key := None)\<rparr>)
          else (Some (data entry), svc))"

definition setCache :: "int \<Rightarrow> string \<Rightarrow> cached \<Rightarrow> service \<Rightarrow> service" where
  "setCache now key v svc =
     svc\<lparr>cache := (cache svc)(key \<mapsto> \<lparr>data = v, expiresAt = now + CACHE_TTL_MS\<rparr>)\<rparr>"

definition clearCache :: "service \<Rightarrow> service" where
  "clearCache svc = svc\<lparr>cache := Map.empty\<rparr>"

text \<open>One call of \<^verbatim>\<open>this.repository.getStatsByPeriod\<close>, recorded in the trace.\<close>

definition query ::
  "int \<Rightarrow> period \<Rightarrow> int \<Rightarrow> repo \<Rightarrow> service \<Rightarrow> (error + KeyStats list) \<times> service" where
  "query tz p anchor st svc =
     (getStatsByPeriod tz p anchor st, svc\<lparr>queries := queries svc @ [(p, anchor)]\<rparr>)"

text \<open>\<^verbatim>\<open>stats.reduce((sum, stat) => sum + stat.count, 0)\<close>.\<close>

definition sum_count :: "KeyStats list \<Rightarrow> int" where
  "sum_count stats = foldl (\<lambda>sum stat. sum + ks_count stat) 0 stats"

definition getDailyStats ::
  "int \<Rightarrow> int \<Rightarrow> int \<Rightarrow> repo \<Rightarrow> service \<Rightarrow> (error + cached) \<times> service" where
  "getDailyStats now tz d st svc =
     (let normalizedDate = Date_UTC (getUTCFullYear d) (getUTCMonth d) (getUTCDate d);
          cacheKey = getCacheKey ''daily'' [normalizedDate]
      in case getFromCache now cacheKey svc of
           (Some c, svc1) \<Rightarrow> (Inr c, svc1)
         | (None, svc1) \<Rightarrow>
             (case query tz per_day normalizedDate st svc1 of
                (Inl e, svc2) \<Rightarrow> (Inl e, svc2)
              | (Inr keyBreakdown, svc2) \<Rightarrow>
                  (let result = Daily \<lparr>d_date = normalizedDate,
                                       d_totalKeystrokes = sum_count keyBreakdown,
                                       d_keyBreakdown = keyBreakdown\<rparr>
                   in (Inr result, setCache now cacheKey result svc2))))"

text \<open>The loop of \<^verbatim>\<open>getDailyTrendForMonth\<close>, from day \<open>d\<close> on.\<close>

function dailyTrendLoop ::
  "int \<Rightarrow> int \<Rightarrow> int \<Rightarrow> int \<Rightarrow> int \<Rightarrow> repo \<Rightarrow> DayCount list \<Rightarrow> service
   \<Rightarrow> (error + DayCount list) \<times> service" where
  "dailyTrendLoop tz y m daysInMonth d st dailyTrend svc =
     (if d \<le> daysInMonth then
        (case query tz per_day (Date_UTC y (m - 1) d) st svc of
           (Inl e, svc') \<Rightarrow> (Inl e, svc')
         | (Inr dayStats, svc') \<Rightarrow>
             dailyTrendLoop tz y m daysInMonth (d + 1) st
               (dailyTrend @ [\<lparr>dc_date = Date_UTC y (m - 1) d, dc_count = sum_count dayStats\<rparr>])
               svc')
      else (Inr dailyTrend, svc))"
  by pat_completeness auto
termination
  by (relation "measure (\<lambda>(tz, y, m, daysInMonth, d, st, dailyTrend, svc). nat (daysInMonth + 1 - d))")
    auto

declare dailyTrendLoop.simps [simp del]

definition getDailyTrendForMonth ::
  "int \<Rightarrow> int \<Rightarrow> int \<Rightarrow> repo \<Rightarrow> service \<Rightarrow> (error + DayCount list) \<times> service" where
  "getDailyTrendForMonth tz y m st svc =
     (let daysInMonth = getDate tz (Date_local tz y m 0)
      in dailyTrendLoop tz y m daysInMonth 1 st [] svc)"

definition getMonthlyStats ::
  "int \<Rightarrow> int \<Rightarrow> int \<Rightarrow> int \<Rightarrow> repo \<Rightarrow> service \<Rightarrow> (error + cached) \<times> service" where
  "getMonthlyStats now tz y m st svc =
     (if m < 1 \<or> m > 12 then (Inl InvalidPeriod, svc)
      else
        (let cacheKey = getCacheKey ''monthly'' [y, m]
         in case getFromCache now cacheKey svc of
              (Some c, svc1) \<Rightarrow> (Inr c, svc1)
            | (None, svc1) \<Rightarrow>
                (let monthDate = Date_local tz y (m - 1) 1
                 in case query tz per_month monthDate st svc1 of
                      (Inl e, svc2) \<Rightarrow> (Inl e, svc2)
                    | (Inr keyBreakdown, svc2) \<Rightarrow>
                        (case getDailyTrendForMonth tz y m st svc2 of
                           (Inl e, svc3) \<Rightarrow> (Inl e, svc3)
                         | (Inr dailyTrend, svc3) \<Rightarrow>
                             (let result = Monthly \<lparr>m_year = y, m_month = m,
                                     m_totalKeystrokes = sum_count keyBreakdown,
                                     m_dailyTrend = dailyTrend,
                                     m_keyBreakdown = keyBreakdown\<rparr>
                              in (Inr result, setCache now cacheKey result svc3))))))"

text \<open>The loop of \<^verbatim>\<open>getMonthlyTrendForYear\<close>, from month \<open>m\<close> on.\<close>

function monthlyTrendLoop ::
  "int \<Rightarrow> int \<Rightarrow> int \<Rightarrow> repo \<Rightarrow> MonthCount list \<Rightarrow> service
   \<Rightarrow> (error + MonthCount list) \<times> service" where
  "monthlyTrendLoop tz y m st monthlyTrend svc =
     (if m \<le> 12 then
        (case query tz per_month (Date_UTC y (m - 1) 1) st svc of
           (Inl e, svc') \<Rightarrow> (Inl e, svc')
         | (Inr monthStats, svc') \<Rightarrow>
             monthlyTrendLoop tz y (m + 1) st
               (monthlyTrend @ [\<lparr>mc_month = m, mc_count = sum_count monthStats\<rparr>]) svc')
      else (Inr monthlyTrend, svc))"
  by pat_completeness auto
termination
  by (relation "measure (\<lambda>(tz, y, m, st, monthlyTrend, svc). nat (13 - m))") auto

declare monthlyTrendLoop.simps [simp del]

definition getMonthlyTrendForYear ::
  "int \<Rightarrow> int \<Rightarrow> repo \<Rightarrow> service \<Rightarrow> (error + MonthCount list) \<times> service" where
  "getMonthlyTrendForYear tz y st svc = monthlyTrendLoop tz y 1 st [] svc"

definition getYearlyStats ::
  "int \<Rightarrow> int \<Rightarrow> int \<Rightarrow> repo \<Rightarrow> service \<Rightarrow> (error + cached) \<times> service" where
  "getYearlyStats now tz y st svc =
     (let cacheKey = getCacheKey ''yearly'' [y]
      in case getFromCache now cacheKey svc of
           (Some c, svc1) \<Rightarrow> (Inr c, svc1)
         | (None, svc1) \<Rightarrow>
             (let yearDate = Date_local tz y 0 1
              in case query tz per_year yearDate st svc1 of
                   (Inl e, svc2) \<Rightarrow> (Inl e, svc2)
                 | (Inr keyBreakdown, svc2) \<Rightarrow>
                     (case getMonthlyTrendForYear tz y st svc2 of
                        (Inl e, svc3) \<Rightarrow> (Inl e, svc3)
                      | (Inr monthlyTrend, svc3) \<Rightarrow>
                          (let result = Yearly \<lparr>y_year = y,
                                  y_totalKeystrokes = sum_count keyBreakdown,
                                  y_monthlyTrend = monthlyTrend,
                                  y_keyBreakdown = keyBreakdown\<rparr>
                           in (Inr result, setCache now cacheKey result svc3)))))"

text \<open>
  \<^verbatim>\<open>stats.slice(0, limit)\<close>: a negative limit counts from the end of the array.
\<close>

definition slice0 :: "'a list \<Rightarrow> int \<Rightarrow> 'a list" where
  "slice0 xs limit =
     (if limit < 0 then take (nat (int (length xs) + limit)) xs else take (nat limit) xs)"

definition getTopKeys ::
  "int \<Rightarrow> period \<Rightarrow> int \<Rightarrow> int \<Rightarrow> repo \<Rightarrow> service \<Rightarrow> (error + KeyStats list) \<times> service" where
  "getTopKeys tz p d limit st svc =
     (case query tz p d st svc of
        (Inl e, svc') \<Rightarrow> (Inl e, svc')
      | (Inr stats, svc') \<Rightarrow> (Inr (slice0 stats limit), svc'))"

section \<open>Specification vocabulary\<close>

text \<open>The logical fields of a record: everything but the identifier the store assigns.\<close>

definition logical :: "Keystroke \<Rightarrow> int \<times> string \<times> int" where
  "logical k = (keyCode k, keyName k, timestamp k)"

definition in_range :: "int \<Rightarrow> int \<Rightarrow> Keystroke \<Rightarrow> bool" where
  "in_range start end k = (start \<le> timestamp k \<and> timestamp k \<le> end)"

text \<open>A breakdown is sorted by count descending: no entry is followed by a larger one.\<close>

definition count_desc :: "KeyStats list \<Rightarrow> bool" where
  "count_desc b = sorted_wrt (\<lambda>s t. ks_count t \<le> ks_count s) b"

definition keyBreakdown :: "cached \<Rightarrow> KeyStats list" where
  "keyBreakdown c =
     (case c of Daily r \<Rightarrow> d_keyBreakdown r | Monthly r \<Rightarrow> m_keyBreakdown r
      | Yearly r \<Rightarrow> y_keyBreakdown r)"

definition totalKeystrokes :: "cached \<Rightarrow> int" where
  "totalKeystrokes c =
     (case c of Daily r \<Rightarrow> d_totalKeystrokes r | Monthly r \<Rightarrow> m_totalKeystrokes r
      | Yearly r \<Rightarrow> y_totalKeystrokes r)"

text \<open>
  What every result of the service is expected to satisfy: the breakdown is sorted by
  count descending, and the total is the sum of its counts. A cache is in order when
  every entry satisfies it.
\<close>

definition stats_ok :: "cached \<Rightarrow> bool" where
  "stats_ok c = (count_desc (keyBreakdown c) \<and> totalKeystrokes c = sum_count (keyBreakdown c))"

definition cache_ok :: "service \<Rightarrow> bool" where
  "cache_ok svc = (\<forall>key e. cache svc key = Some e \<longrightarrow> stats_ok (data e))"



text \<open>
  The states a \<^verbatim>\<open>StatisticsService\<close> can be in: it starts with an empty cache, and changes
  only through its public methods, called with any arguments on any state of the
  repository.
\<close>

inductive service_reachable :: "service \<Rightarrow> bool" where
  new_service: "service_reachable \<lparr>cache = Map.empty, queries = []\<rparr>"
| after_getDailyStats:
    "service_reachable svc \<Longrightarrow> service_reachable (snd (getDailyStats now tz d st svc))"
| after_getMonthlyStats:
    "service_reachable svc \<Longrightarrow> service_reachable (snd (getMonthlyStats now tz y m st svc))"
| after_getYearlyStats:
    "service_reachable svc \<Longrightarrow> service_reachable (snd (getYearlyStats now tz y st svc))"
| after_getTopKeys:
    "service_reachable svc \<Longrightarrow> service_reachable (snd (getTopKeys tz p d limit st svc))"
| after_clearCache:
    "service_reachable svc \<Longrightarrow> service_reachable (clearCache svc)"

section \<open>Example states\<close>

text \<open>
  A repository on \<^verbatim>\<open>keyboard-stats.db\<close> before and after \<^verbatim>\<open>initialize\<close>, and a fresh
  service and buffer.
\<close>

definition repo_new :: repo where
  "repo_new = \<lparr>db = False, dbPath = ''keyboard-stats.db'', files = Map.empty, schemaFound = True\<rparr>"

definition repo_ready :: repo where
  "repo_ready = \<lparr>db = True, dbPath = ''keyboard-stats.db'',
                 files = [''keyboard-stats.db'' \<mapsto> empty_database], schemaFound = True\<rparr>"

definition service_new :: service where
  "service_new = \<lparr>cache = Map.empty, queries = []\<rparr>"

text \<open>
  Three keystrokes an hour apart: the first two late on 14 November 2023 in UTC, the third
  early on the 15th.
\<close>

definition key_A1 :: Keystroke where
  "key_A1 = \<lparr>id_opt = None, keyCode = 65, keyName = ''A'', timestamp = 1700000000000\<rparr>"

definition key_A2 :: Keystroke where
  "key_A2 = \<lparr>id_opt = None, keyCode = 65, keyName = ''A'', timestamp = 1700003600000\<rparr>"

definition key_B :: Keystroke where
  "key_B = \<lparr>id_opt = None, keyCode = 66, keyName = ''B'', timestamp = 1700007200000\<rparr>"

text \<open>One keystroke at noon UTC on 15 December 2024, and the store that holds just it.\<close>

definition key_dec :: Keystroke where
  "key_dec = \<lparr>id_opt = None, keyCode = 65, keyName = ''A'', timestamp = 1734264000000\<rparr>"

definition db_dec :: database where
  "db_dec = \<lparr>keystrokes = [\<lparr>row_id = 1, key_code = 65, key_name = ''A'',
                row_timestamp = 1734264000000, date = ''2024-12-15'', hour = 12\<rparr>],
             backups = [], seq = 1\<rparr>"

definition repo_dec :: repo where
  "repo_dec = \<lparr>db = True, dbPath = ''keyboard-stats.db'',
               files = [''keyboard-stats.db'' \<mapsto> db_dec], schemaFound = True\<rparr>"

text \<open>The store after the three keystrokes above have been saved into an empty one.\<close>

definition db_abc :: database where
  "db_abc = \<lparr>keystrokes =
               [\<lparr>row_id = 1, key_code = 65, key_name = ''A'', row_timestamp = 1700000000000,
                  date = ''2023-11-14'', hour = 22\<rparr>,
                \<lparr>row_id = 2, key_code = 65, key_name = ''A'', row_timestamp = 1700003600000,
                  date = ''2023-11-14'', hour = 23\<rparr>,
                \<lparr>row_id = 3, key_code = 66, key_name = ''B'', row_timestamp = 1700007200000,
                  date = ''2023-11-15'', hour = 0\<rparr>],
             backups = [], seq = 3\<rparr>"

definition repo_abc :: repo where
  "repo_abc = \<lparr>db = True, dbPath = ''keyboard-stats.db'',
               files = [''keyboard-stats.db'' \<mapsto> db_abc], schemaFound = True\<rparr>"

text \<open>One keystroke on 15 January of the year 999, and the store that holds just it.\<close>

definition key_old :: Keystroke where
  "key_old = \<lparr>id_opt = None, keyCode = 65, keyName = ''A'', timestamp = - 30640550400000\<rparr>"

definition db_old :: database where
  "db_old = \<lparr>keystrokes = [\<lparr>row_id = 1, key_code = 65, key_name = ''A'',
                row_timestamp = - 30640550400000, date = ''0999-01-15'', hour = 0\<rparr>],
             backups = [], seq = 1\<rparr>"

definition repo_old :: repo where
  "repo_old = \<lparr>db = True, dbPath = ''keyboard-stats.db'',
               files = [''keyboard-stats.db'' \<mapsto> db_old], schemaFound = True\<rparr>"

text \<open>A buffer holding two keystrokes, with no flush in progress.\<close>

definition buffer_two :: buffer_state where
  "buffer_two = \<lparr>buffer = [key_A1, key_A2], isFlushingInProgress = False\<rparr>"

text \<open>The trace of a flush of one keystroke whose first three writes fail.\<close>

definition trace_dec :: "event list" where
  "trace_dec =
     [Attempt [key_dec], Wait 1000, Attempt [key_dec], Wait 2000, Attempt [key_dec], Wait 4000,
      Attempt [key_dec], Flushed 1]"

text \<open>The trace of a flush of two keystrokes on a closed store: four writes, all refused.\<close>

definition trace_closed :: "event list" where
  "trace_closed =
     [Attempt [key_A1, key_A2], Wait 1000, Attempt [key_A1, key_A2], Wait 2000,
      Attempt [key_A1, key_A2], Wait 4000, Attempt [key_A1, key_A2]]"

section \<open>Evaluation\<close>

text \<open>Equations that let the simplifier run the definitions on concrete input.\<close>

lemma String_nat_small: "n < 10 \<Longrightarrow> String_nat n = [digit n]"
  by (subst String_nat.simps) simp

lemma String_nat_big:
  "\<not> n < 10 \<Longrightarrow> String_nat n = String_nat (n div 10) @ [digit (n mod 10)]"
  by (subst String_nat.simps) simp

lemma replicate_unfold: "replicate n c = (if n = 0 then [] else c # replicate (n - 1) c)"
  by (cases n) simp_all

lemma dailyTrendLoop_step:
  "d \<le> daysInMonth \<Longrightarrow>
   dailyTrendLoop tz y m daysInMonth d st dailyTrend svc =
     (case query tz per_day (Date_UTC y (m - 1) d) st svc of
        (Inl e, svc') \<Rightarrow> (Inl e, svc')
      | (Inr dayStats, svc') \<Rightarrow>
          dailyTrendLoop tz y m daysInMonth (d + 1) st
            (dailyTrend @ [\<lparr>dc_date = Date_UTC y (m - 1) d, dc_count = sum_count dayStats\<rparr>])
            svc')"
  by (subst dailyTrendLoop.simps) simp

lemma dailyTrendLoop_stop:
  "\<not> d \<le> daysInMonth \<Longrightarrow>
   dailyTrendLoop tz y m daysInMonth d st dailyTrend svc = (Inr dailyTrend, svc)"
  by (subst dailyTrendLoop.simps) simp

lemma monthlyTrendLoop_step:
  "m \<le> 12 \<Longrightarrow>
   monthlyTrendLoop tz y m st monthlyTrend svc =
     (case query tz per_month (Date_UTC y (m - 1) 1) st svc of
        (Inl e, svc') \<Rightarrow> (Inl e, svc')
      | (Inr monthStats, svc') \<Rightarrow>
          monthlyTrendLoop tz y (m + 1) st
            (monthlyTrend @ [\<lparr>mc_month = m, mc_count = sum_count monthStats\<rparr>]) svc')"
  by (subst monthlyTrendLoop.simps) simp

lemma monthlyTrendLoop_stop:
  "\<not> m \<le> 12 \<Longrightarrow> monthlyTrendLoop tz y m st monthlyTrend svc = (Inr monthlyTrend, svc)"
  by (subst monthlyTrendLoop.simps) simp

lemmas date_eval = msPerDay_def msPerHour_def msPerMinute_def Day_def civil_from_days_def
  days_from_civil_def YearFromTime_def MonthFromTime_def DateFromTime_def HourFromTime_def
  MakeDay_def fullYear_def Date_UTC_def LocalTime_def Date_local_def getFullYear_def getMonth_def
  getDate_def getUTCFullYear_def getUTCMonth_def getUTCDate_def getUTCHours_def valid_time_def
  String_nat_small String_nat_big digit_def String_int_def padStart_def isoYear_def toISODate_def
  replicate_unfold Let_def

lemmas repo_eval = contents_def write_db_def initialize_def mk_row_def save_def to_Keystroke_def
  getByDateRange_def group_by_key_name_def order_by_count_desc_def stats_where_def
  getStatsByPeriod_def empty_database_def clear_def backup_def restore_def

lemmas service_eval = CACHE_TTL_MS_def getCacheKey_def getFromCache_def setCache_def
  clearCache_def query_def sum_count_def getDailyStats_def dailyTrendLoop_step dailyTrendLoop_stop
  getDailyTrendForMonth_def getMonthlyStats_def monthlyTrendLoop_step monthlyTrendLoop_stop
  getMonthlyTrendForYear_def getYearlyStats_def slice0_def getTopKeys_def


lemmas example_defs = repo_new_def repo_ready_def service_new_def key_A1_def key_A2_def
  key_B_def key_dec_def db_dec_def repo_dec_def db_abc_def repo_abc_def buffer_two_def
  trace_dec_def trace_closed_def key_old_def db_old_def repo_old_def

text \<open>The example stores are what the repository produces from a new one.\<close>

lemma initialize_example: "initialize repo_new = (Inr (), repo_ready)"
  by (simp add: example_defs repo_eval)

lemma save_dec: "save False [key_dec] repo_ready = (Inr (), repo_dec)"
  by (simp add: example_defs repo_eval date_eval cong: let_weak_cong)

lemma save_old: "save False [key_old] repo_ready = (Inr (), repo_old)"
  by (simp add: example_defs repo_eval date_eval cong: let_weak_cong)

lemma save_abc:
  "fst (save False [key_A1, key_A2, key_B] repo_ready) = Inr () \<and>
   contents (snd (save False [key_A1, key_A2, key_B] repo_ready)) = contents repo_abc"
  by (simp add: example_defs repo_eval date_eval cong: let_weak_cong)

section \<open>The repository: initialization and restore\<close>

text \<open>
  Claim C10. \<^verbatim>\<open>save\<close> checks initialization before emptiness: on a store that has not been
  initialized it fails with \<open>NotInitialized\<close> for every batch, the empty one included, and
  leaves the store as it was; on an initialized store, saving the empty batch returns
  without changing anything.
\<close>

theorem save_checks_initialization_first:
  "(\<not> db st \<longrightarrow> save fault ks st = (Inl NotInitialized, st)) \<and>
   (db st \<longrightarrow> save fault [] st = (Inr (), st))"
  by (simp add: save_def)

theorem save_checks_initialization_first_witness:
  "save False [] repo_new = (Inl NotInitialized, repo_new) \<and>
   save False [key_A1] repo_new = (Inl NotInitialized, repo_new) \<and>
   save False [] repo_ready = (Inr (), repo_ready)"
  using save_checks_initialization_first [of repo_new False "[]"]
    save_checks_initialization_first [of repo_new False "[key_A1]"]
    save_checks_initialization_first [of repo_ready False]
  by (simp add: repo_new_def repo_ready_def)

text \<open>
  Claim C7. On an initialized store, \<^verbatim>\<open>restore\<close> of a path that is not on disk fails with
  \<open>BackupNotFound\<close> in one step, and the repository is exactly as before: the connection
  is still open and no file has changed.
\<close>

theorem restore_missing_backup:
  "db st \<Longrightarrow> files st path = None \<Longrightarrow> restore path st = (Inl BackupNotFound, st)"
  by (simp add: restore_def)

theorem restore_missing_backup_witness:
  "db repo_dec \<and> files repo_dec ''./non-existent-backup.db'' = None \<and>
   restore ''./non-existent-backup.db'' repo_dec = (Inl BackupNotFound, repo_dec)"
proof -
  have a: "db repo_dec" by (simp add: repo_dec_def)
  have b: "files repo_dec ''./non-existent-backup.db'' = None" by (simp add: repo_dec_def)
  show ?thesis using a b restore_missing_backup [OF a b] by simp
qed

section \<open>The service: validation of the month\<close>

lemma query_not_InvalidPeriod: "fst (query tz p a st svc) \<noteq> Inl InvalidPeriod"
  by (simp add: query_def getStatsByPeriod_def Let_def split: period.split)

lemma dailyTrendLoop_not_InvalidPeriod:
  "fst (dailyTrendLoop tz y m n d st acc svc) \<noteq> Inl InvalidPeriod"
proof (induction tz y m n d st acc svc rule: dailyTrendLoop.induct)
  case (1 tz y m n d st acc svc)
  show ?case
  proof (cases "d \<le> n")
    case False
    then show ?thesis by (simp add: dailyTrendLoop_stop)
  next
    case True
    obtain r svc' where q: "query tz per_day (Date_UTC y (m - 1) d) st svc = (r, svc')"
      by (cases "query tz per_day (Date_UTC y (m - 1) d) st svc")
    show ?thesis
    proof (cases r)
      case (Inl e)
      with q query_not_InvalidPeriod [of tz per_day "Date_UTC y (m - 1) d" st svc]
      show ?thesis using True by (simp add: dailyTrendLoop_step)
    next
      case (Inr stats)
      with q True "1.IH" [OF True q [symmetric] Inr] show ?thesis
        by (simp add: dailyTrendLoop_step)
    qed
  qed
qed

text \<open>
  Claim C8. \<^verbatim>\<open>getMonthlyStats\<close> fails with \<open>InvalidPeriod\<close> for every month below 1 or above
  12, and then the service is as before: the cache is untouched and no query has been sent
  to the repository. For a month from 1 to 12 it never fails with \<open>InvalidPeriod\<close>.
\<close>

theorem getMonthlyStats_InvalidPeriod:
  "((m < 1 \<or> m > 12) \<longrightarrow> getMonthlyStats now tz y m st svc = (Inl InvalidPeriod, svc)) \<and>
   (1 \<le> m \<and> m \<le> 12 \<longrightarrow> fst (getMonthlyStats now tz y m st svc) \<noteq> Inl InvalidPeriod)"
proof (intro conjI impI)
  assume "m < 1 \<or> m > 12"
  then show "getMonthlyStats now tz y m st svc = (Inl InvalidPeriod, svc)"
    by (auto simp: getMonthlyStats_def)
next
  assume ok: "1 \<le> m \<and> m \<le> 12"
  show "fst (getMonthlyStats now tz y m st svc) \<noteq> Inl InvalidPeriod"
    using ok query_not_InvalidPeriod dailyTrendLoop_not_InvalidPeriod
    by (auto simp: getMonthlyStats_def getDailyTrendForMonth_def Let_def
        split: prod.splits option.splits sum.splits dest: arg_cong [where f = fst])
qed

theorem getMonthlyStats_InvalidPeriod_witness:
  "getMonthlyStats 0 0 2024 0 repo_dec service_new = (Inl InvalidPeriod, service_new) \<and>
   getMonthlyStats 0 0 2024 13 repo_new service_new = (Inl InvalidPeriod, service_new) \<and>
   fst (getMonthlyStats 0 0 2024 12 repo_dec service_new) \<noteq> Inl InvalidPeriod"
  using getMonthlyStats_InvalidPeriod [of 0 0 0 2024 repo_dec service_new]
    getMonthlyStats_InvalidPeriod [of 13 0 0 2024 repo_new service_new]
    getMonthlyStats_InvalidPeriod [of 12 0 0 2024 repo_dec service_new]
  by simp

section \<open>The buffer: retries and requeueing\<close>

lemma contents_write_db: "contents (write_db d st) = d"
  by (simp add: contents_def write_db_def)


lemma save_Inr: "save f ks st = (Inr u, st') \<Longrightarrow> contents st' = insert_all ks (contents st)"
  by (auto simp: save_def contents_write_db split: if_splits)

lemma save_db: "db (snd (save f ks st)) = db st"
  by (simp add: save_def write_db_def)

lemma save_valid: "db st \<Longrightarrow> list_all (\<lambda>k. valid_time (timestamp k)) ks \<Longrightarrow> fst (save False ks st) = Inr ()"
  by (simp add: save_def)

lemma insert_all_rows:
  "\<exists>new. keystrokes (insert_all ks d) = keystrokes d @ new \<and>
     map (logical \<circ> to_Keystroke) new = map logical ks"
proof (induction ks arbitrary: d)
  case Nil
  show ?case by simp
next
  case (Cons k ks)
  let ?d = "d\<lparr>keystrokes := keystrokes d @ [mk_row (Suc (seq d)) k], seq := Suc (seq d)\<rparr>"
  from Cons.IH [of ?d] obtain new where
    n: "keystrokes (insert_all ks ?d) = keystrokes ?d @ new"
       "map (logical \<circ> to_Keystroke) new = map logical ks" by blast
  have "keystrokes (insert_all (k # ks) d) = keystrokes d @ (mk_row (Suc (seq d)) k # new)"
    using n by simp
  moreover have "map (logical \<circ> to_Keystroke) (mk_row (Suc (seq d)) k # new) = map logical (k # ks)"
    using n by (simp add: logical_def to_Keystroke_def mk_row_def)
  ultimately show ?case by blast
qed








text \<open>On a closed store every attempt is refused, whatever SQLite would have done.\<close>

lemma flushWithRetry_closed:
  "\<not> db st \<Longrightarrow> fst (flushWithRetry faults ks attempt st) = Inl NotInitialized"
proof (induction faults ks attempt st rule: flushWithRetry.induct)
  case (1 faults ks attempt st)
  have s: "save (fault_now faults) ks st = (Inl NotInitialized, st)"
    using "1.prems" by (simp add: save_def)
  show ?case
  proof (cases "attempt < maxRetries")
    case True
    from "1.IH" [OF s [symmetric] refl True "1.prems"] s True show ?thesis
      by (auto simp: flushWithRetry.simps [of faults ks attempt st] split: prod.splits)
  next
    case False
    with s show ?thesis by (simp add: flushWithRetry.simps [of faults ks attempt st])
  qed
qed



section \<open>The repository: round trips\<close>

lemma range_rows:
  assumes "map (logical \<circ> to_Keystroke) new = map logical batch"
  shows "map (logical \<circ> to_Keystroke)
           (filter (\<lambda>r. start \<le> row_timestamp r \<and> row_timestamp r \<le> end) new)
         = map logical (filter (in_range start end) batch)"
proof -
  let ?Q = "\<lambda>t :: int \<times> string \<times> int. start \<le> snd (snd t) \<and> snd (snd t) \<le> end"
  have l: "(\<lambda>r. start \<le> row_timestamp r \<and> row_timestamp r \<le> end) = ?Q \<circ> (logical \<circ> to_Keystroke)"
    by (auto simp: logical_def to_Keystroke_def)
  have r: "in_range start end = ?Q \<circ> logical"
    by (auto simp: logical_def in_range_def)
  show ?thesis
    unfolding l r using assms by (simp only: filter_map [symmetric])
qed

text \<open>
  Claim C5. Saving a batch into an initialized store with no records succeeds when every
  timestamp is a time value; after a successful save, \<^verbatim>\<open>getByDateRange(start, end)\<close>
  returns exactly the records of the batch with timestamp in \<open>[start, end]\<close> inclusive,
  as a multiset of logical fields, ordered by timestamp ascending; when the range covers
  the whole batch, that multiset is the batch.
\<close>

theorem save_getByDateRange_roundtrip:
  assumes "db st" and "keystrokes (contents st) = []"
  shows "(list_all (\<lambda>k. valid_time (timestamp k)) batch \<longrightarrow> fst (save False batch st) = Inr ()) \<and>
         (fst (save False batch st) = Inr () \<longrightarrow>
            (\<exists>rows. getByDateRange start end (snd (save False batch st)) = Inr rows \<and>
               mset (map logical rows) = mset (map logical (filter (in_range start end) batch)) \<and>
               sorted (map timestamp rows) \<and>
               list_all (in_range start end) rows \<and>
               (list_all (in_range start end) batch \<longrightarrow>
                  mset (map logical rows) = mset (map logical batch))))"
proof (intro conjI impI)
  assume "list_all (\<lambda>k. valid_time (timestamp k)) batch"
  with assms(1) show "fst (save False batch st) = Inr ()" by (rule save_valid)
next
  assume ok: "fst (save False batch st) = Inr ()"
  define st' where "st' = snd (save False batch st)"
  have sv: "save False batch st = (Inr (), st')" using ok by (simp add: st'_def prod_eq_iff)
  have c: "contents st' = insert_all batch (contents st)" using sv by (rule save_Inr)
  have d: "db st'" using assms(1) save_db [of False batch st] by (simp add: st'_def)
  from insert_all_rows [of batch "contents st"] assms(2) c obtain new where
    new: "keystrokes (contents st') = new" "map (logical \<circ> to_Keystroke) new = map logical batch"
    by auto
  let ?P = "\<lambda>r. start \<le> row_timestamp r \<and> row_timestamp r \<le> end"
  let ?rows = "map to_Keystroke (sort_key row_timestamp (filter ?P new))"
  have g: "getByDateRange start end st' = Inr ?rows"
    using d new(1) by (simp add: getByDateRange_def)
  have m: "mset (map logical ?rows) = mset (map logical (filter (in_range start end) batch))"
  proof -
    have "mset (map logical ?rows) = image_mset (logical \<circ> to_Keystroke) (mset (filter ?P new))"
      by (simp add: multiset.map_comp)
    also have "\<dots> = mset (map (logical \<circ> to_Keystroke) (filter ?P new))" by simp
    also have "\<dots> = mset (map logical (filter (in_range start end) batch))"
      using range_rows [OF new(2)] by simp
    finally show ?thesis .
  qed
  have s: "sorted (map timestamp ?rows)"
  proof -
    have "timestamp \<circ> to_Keystroke = row_timestamp"
      by (rule ext) (simp add: to_Keystroke_def)
    then have "map timestamp ?rows = map row_timestamp (sort_key row_timestamp (filter ?P new))"
      by simp
    then show ?thesis by (simp only: sorted_sort_key)
  qed
  have i: "list_all (in_range start end) ?rows"
    by (simp add: list_all_iff in_range_def to_Keystroke_def)
  have a: "list_all (in_range start end) batch \<longrightarrow>
             mset (map logical ?rows) = mset (map logical batch)"
  proof
    assume "list_all (in_range start end) batch"
    then have "filter (in_range start end) batch = batch" by (simp add: list_all_iff)
    with m show "mset (map logical ?rows) = mset (map logical batch)" by simp
  qed
  show "\<exists>rows. getByDateRange start end (snd (save False batch st)) = Inr rows \<and>
               mset (map logical rows) = mset (map logical (filter (in_range start end) batch)) \<and>
               sorted (map timestamp rows) \<and>
               list_all (in_range start end) rows \<and>
               (list_all (in_range start end) batch \<longrightarrow>
                  mset (map logical rows) = mset (map logical batch))"
    using g m s i a unfolding st'_def by blast
qed

theorem save_getByDateRange_roundtrip_witness:
  "db repo_ready \<and> keystrokes (contents repo_ready) = [] \<and>
   list_all (\<lambda>k. valid_time (timestamp k)) [key_B, key_A1] \<and>
   list_all (in_range 1700000000000 1700007200000) [key_B, key_A1] \<and>
   fst (save False [key_B, key_A1] repo_ready) = Inr () \<and>
   (\<exists>rows. getByDateRange 1700000000000 1700007200000
              (snd (save False [key_B, key_A1] repo_ready)) = Inr rows \<and>
      mset (map logical rows) = mset (map logical [key_B, key_A1]) \<and>
      sorted (map timestamp rows))"
proof -
  have h1: "db repo_ready" by (simp add: repo_ready_def)
  have h2: "keystrokes (contents repo_ready) = []"
    by (simp add: repo_ready_def contents_def empty_database_def)
  have h3: "list_all (\<lambda>k. valid_time (timestamp k)) [key_B, key_A1]"
    by (simp add: key_B_def key_A1_def valid_time_def)
  have h4: "list_all (in_range 1700000000000 1700007200000) [key_B, key_A1]"
    by (simp add: key_B_def key_A1_def in_range_def)
  note t = save_getByDateRange_roundtrip [OF h1 h2, of "[key_B, key_A1]"
      1700000000000 1700007200000]
  from t h3 have s: "fst (save False [key_B, key_A1] repo_ready) = Inr ()" by blast
  from t s h4 have "\<exists>rows. getByDateRange 1700000000000 1700007200000
              (snd (save False [key_B, key_A1] repo_ready)) = Inr rows \<and>
      mset (map logical rows) = mset (map logical [key_B, key_A1]) \<and>
      sorted (map timestamp rows)" by blast
  with h1 h2 h3 h4 s show ?thesis by blast
qed

text \<open>
  Claim C6. On an initialized store whose file and schema are in place, \<^verbatim>\<open>backup()\<close>, then
  \<^verbatim>\<open>clear()\<close>, then \<^verbatim>\<open>restore\<close> of the path the backup returned all succeed, the store is
  open again, and its records are those from before the clear, field for field.
\<close>

theorem backup_clear_restore:
  assumes "db st" and "schemaFound st" and "files st (dbPath st) = Some d"
  shows "\<exists>p st1 st2 st3.
           backup now st = (Inr p, st1) \<and> clear st1 = (Inr (), st2) \<and>
           restore p st2 = (Inr (), st3) \<and>
           db st3 \<and> contents st3 = contents st \<and>
           keystrokes (contents st3) = keystrokes (contents st)"
proof -
  let ?p = "dbPath st @ ''.backup.'' @ String_int now"
  let ?d1 = "d\<lparr>backups := backups d @ [\<lparr>backup_path = ?p, created_at = now\<rparr>]\<rparr>"
  let ?st1 = "st\<lparr>files := (files st)(?p \<mapsto> d, dbPath st \<mapsto> ?d1)\<rparr>"
  let ?st2 = "st\<lparr>files := (files st)(?p \<mapsto> d, dbPath st \<mapsto> ?d1\<lparr>keystrokes := []\<rparr>)\<rparr>"
  let ?st3 = "st\<lparr>files := (files st)(?p \<mapsto> d, dbPath st \<mapsto> d)\<rparr>"
  have fresh: "?p \<noteq> dbPath st" by simp
  have b: "backup now st = (Inr ?p, ?st1)"
    using assms fresh by (simp add: backup_def Let_def contents_def write_db_def)
  have c: "clear ?st1 = (Inr (), ?st2)"
    using assms by (simp add: clear_def contents_def write_db_def)
  have r: "restore ?p ?st2 = (Inr (), ?st3)"
    using assms fresh by (simp add: restore_def initialize_def contents_def write_db_def Let_def)
  have "db ?st3" using assms by simp
  moreover have "contents ?st3 = contents st" using assms by (simp add: contents_def)
  ultimately show ?thesis using b c r by metis
qed

theorem backup_clear_restore_witness:
  "db repo_dec \<and> schemaFound repo_dec \<and> files repo_dec (dbPath repo_dec) = Some db_dec \<and>
   (\<exists>p st1 st2 st3.
      backup 1734264000001 repo_dec = (Inr p, st1) \<and> clear st1 = (Inr (), st2) \<and>
      restore p st2 = (Inr (), st3) \<and> db st3 \<and>
      keystrokes (contents st3) = keystrokes db_dec)"
proof -
  have h1: "db repo_dec" by (simp add: repo_dec_def)
  have h2: "schemaFound repo_dec" by (simp add: repo_dec_def)
  have h3: "files repo_dec (dbPath repo_dec) = Some db_dec" by (simp add: repo_dec_def)
  have c: "contents repo_dec = db_dec" by (simp add: repo_dec_def contents_def)
  from backup_clear_restore [OF h1 h2 h3, of 1734264000001] c
  have "\<exists>p st1 st2 st3.
      backup 1734264000001 repo_dec = (Inr p, st1) \<and> clear st1 = (Inr (), st2) \<and>
      restore p st2 = (Inr (), st3) \<and> db st3 \<and>
      keystrokes (contents st3) = keystrokes db_dec" by metis
  with h1 h2 h3 show ?thesis by blast
qed

section \<open>The service: sorted breakdowns\<close>

lemma count_desc_order_by: "count_desc (order_by_count_desc xs)"
proof -
  have "sorted (map (\<lambda>s. - ks_count s) (sort_key (\<lambda>s. - ks_count s) xs))"
    by (rule sorted_sort_key)
  then show ?thesis
    by (simp add: count_desc_def order_by_count_desc_def sorted_map)
qed

lemma getStatsByPeriod_count_desc: "getStatsByPeriod tz p a st = Inr b \<Longrightarrow> count_desc b"
  by (auto simp: getStatsByPeriod_def stats_where_def Let_def count_desc_order_by
      split: if_splits period.splits)

lemma count_desc_adjacent:
  "count_desc b \<Longrightarrow> Suc i < length b \<Longrightarrow> ks_count (b ! Suc i) \<le> ks_count (b ! i)"
  by (simp add: count_desc_def sorted_wrt_iff_nth_less)

lemma count_desc_slice0: "count_desc b \<Longrightarrow> count_desc (slice0 b limit)"
  by (simp add: count_desc_def slice0_def sorted_wrt_take)

lemma query_fst: "fst (query tz p a st svc) = getStatsByPeriod tz p a st"
  by (simp add: query_def)

lemma query_cache: "cache (snd (query tz p a st svc)) = cache svc"
  by (simp add: query_def)

lemma query_eq: "query tz p a st svc = (r, svc') \<Longrightarrow> getStatsByPeriod tz p a st = r \<and> cache svc' = cache svc"
  by (auto simp: query_def)

lemma getTopKeys_count_desc: "fst (getTopKeys tz p a limit st svc) = Inr b \<Longrightarrow> count_desc b"
  by (auto simp: getTopKeys_def split: prod.splits sum.splits
      dest!: query_eq getStatsByPeriod_count_desc intro: count_desc_slice0)

lemma dailyTrendLoop_cache:
  "cache (snd (dailyTrendLoop tz y m n d st acc svc)) = cache svc"
proof (induction tz y m n d st acc svc rule: dailyTrendLoop.induct)
  case (1 tz y m n d st acc svc)
  show ?case
  proof (cases "d \<le> n")
    case False
    then show ?thesis by (simp add: dailyTrendLoop_stop)
  next
    case True
    obtain r svc' where q: "query tz per_day (Date_UTC y (m - 1) d) st svc = (r, svc')"
      by (cases "query tz per_day (Date_UTC y (m - 1) d) st svc")
    then have c: "cache svc' = cache svc" by (simp add: query_eq)
    show ?thesis
    proof (cases r)
      case (Inl e)
      with q c True show ?thesis by (simp add: dailyTrendLoop_step)
    next
      case (Inr stats)
      with q c True "1.IH" [OF True q [symmetric] Inr] show ?thesis
        by (simp add: dailyTrendLoop_step)
    qed
  qed
qed

lemma monthlyTrendLoop_cache:
  "cache (snd (monthlyTrendLoop tz y m st acc svc)) = cache svc"
proof (induction tz y m st acc svc rule: monthlyTrendLoop.induct)
  case (1 tz y m st acc svc)
  show ?case
  proof (cases "m \<le> 12")
    case False
    then show ?thesis by (simp add: monthlyTrendLoop_stop)
  next
    case True
    obtain r svc' where q: "query tz per_month (Date_UTC y (m - 1) 1) st svc = (r, svc')"
      by (cases "query tz per_month (Date_UTC y (m - 1) 1) st svc")
    then have c: "cache svc' = cache svc" by (simp add: query_eq)
    show ?thesis
    proof (cases r)
      case (Inl e)
      with q c True show ?thesis by (simp add: monthlyTrendLoop_step)
    next
      case (Inr stats)
      with q c True "1.IH" [OF True q [symmetric] Inr] show ?thesis
        by (simp add: monthlyTrendLoop_step)
    qed
  qed
qed

lemma cache_ok_cong: "cache svc' = cache svc \<Longrightarrow> cache_ok svc \<Longrightarrow> cache_ok svc'"
  by (simp add: cache_ok_def)

lemma cache_ok_setCache: "cache_ok svc \<Longrightarrow> stats_ok v \<Longrightarrow> cache_ok (setCache now key v svc)"
  by (simp add: cache_ok_def setCache_def)

lemma getFromCache_ok:
  "cache_ok svc \<Longrightarrow> getFromCache now key svc = (r, svc1) \<Longrightarrow>
     cache_ok svc1 \<and> (\<forall>c. r = Some c \<longrightarrow> stats_ok c)"
  by (auto simp: getFromCache_def cache_ok_def split: option.splits if_splits)

lemma getDailyStats_ok:
  assumes "cache_ok svc"
  shows "cache_ok (snd (getDailyStats now tz d st svc)) \<and>
         (\<forall>c. fst (getDailyStats now tz d st svc) = Inr c \<longrightarrow> stats_ok c)"
proof -
  let ?nd = "Date_UTC (getUTCFullYear d) (getUTCMonth d) (getUTCDate d)"
  let ?key = "getCacheKey ''daily'' [?nd]"
  obtain r svc1 where g: "getFromCache now ?key svc = (r, svc1)"
    by (cases "getFromCache now ?key svc")
  note g_ok = getFromCache_ok [OF assms g]
  show ?thesis
  proof (cases r)
    case (Some c)
    with g g_ok show ?thesis by (simp add: getDailyStats_def Let_def)
  next
    case None
    obtain q svc2 where q: "query tz per_day ?nd st svc1 = (q, svc2)"
      by (cases "query tz per_day ?nd st svc1")
    from query_eq [OF q] g_ok have ok2: "cache_ok svc2" by (simp add: cache_ok_def)
    show ?thesis
    proof (cases q)
      case (Inl e)
      with None g q ok2 show ?thesis by (simp add: getDailyStats_def Let_def)
    next
      case (Inr b)
      with query_eq [OF q] have "count_desc b" by (blast intro: getStatsByPeriod_count_desc)
      then have "stats_ok (Daily \<lparr>d_date = ?nd, d_totalKeystrokes = sum_count b, d_keyBreakdown = b\<rparr>)"
        by (simp add: stats_ok_def keyBreakdown_def totalKeystrokes_def)
      with None g q ok2 Inr show ?thesis
        by (simp add: getDailyStats_def Let_def cache_ok_setCache)
    qed
  qed
qed

lemma getMonthlyStats_ok:
  assumes "cache_ok svc"
  shows "cache_ok (snd (getMonthlyStats now tz y m st svc)) \<and>
         (\<forall>c. fst (getMonthlyStats now tz y m st svc) = Inr c \<longrightarrow> stats_ok c)"
proof (cases "m < 1 \<or> m > 12")
  case True
  with assms show ?thesis by (auto simp: getMonthlyStats_def)
next
  case False
  let ?key = "getCacheKey ''monthly'' [y, m]"
  obtain r svc1 where g: "getFromCache now ?key svc = (r, svc1)"
    by (cases "getFromCache now ?key svc")
  note g_ok = getFromCache_ok [OF assms g]
  show ?thesis
  proof (cases r)
    case (Some c)
    with False g g_ok show ?thesis by (simp add: getMonthlyStats_def Let_def)
  next
    case None
    let ?md = "Date_local tz y (m - 1) 1"
    obtain q svc2 where q: "query tz per_month ?md st svc1 = (q, svc2)"
      by (cases "query tz per_month ?md st svc1")
    from query_eq [OF q] g_ok have ok2: "cache_ok svc2" by (simp add: cache_ok_def)
    show ?thesis
    proof (cases q)
      case (Inl e)
      with False None g q ok2 show ?thesis by (simp add: getMonthlyStats_def Let_def)
    next
      case (Inr b)
      with query_eq [OF q] have b: "count_desc b" by (blast intro: getStatsByPeriod_count_desc)
      obtain t svc3 where t: "getDailyTrendForMonth tz y m st svc2 = (t, svc3)"
        by (cases "getDailyTrendForMonth tz y m st svc2")
      have "cache svc3 = cache svc2"
        using t dailyTrendLoop_cache [of tz y m "getDate tz (Date_local tz y m 0)" 1 st "[]" svc2]
        by (simp add: getDailyTrendForMonth_def Let_def)
      with ok2 have ok3: "cache_ok svc3" by (simp add: cache_ok_def)
      show ?thesis
      proof (cases t)
        case (Inl e)
        with False None g q Inr t ok3 show ?thesis by (simp add: getMonthlyStats_def Let_def)
      next
        case (Inr trend)
        have "stats_ok (Monthly \<lparr>m_year = y, m_month = m, m_totalKeystrokes = sum_count b,
                m_dailyTrend = trend, m_keyBreakdown = b\<rparr>)"
          using b by (simp add: stats_ok_def keyBreakdown_def totalKeystrokes_def)
        with False None g q \<open>q = Inr b\<close> t Inr ok3 show ?thesis
          by (simp add: getMonthlyStats_def Let_def cache_ok_setCache)
      qed
    qed
  qed
qed

lemma getYearlyStats_ok:
  assumes "cache_ok svc"
  shows "cache_ok (snd (getYearlyStats now tz y st svc)) \<and>
         (\<forall>c. fst (getYearlyStats now tz y st svc) = Inr c \<longrightarrow> stats_ok c)"
proof -
  let ?key = "getCacheKey ''yearly'' [y]"
  obtain r svc1 where g: "getFromCache now ?key svc = (r, svc1)"
    by (cases "getFromCache now ?key svc")
  note g_ok = getFromCache_ok [OF assms g]
  show ?thesis
  proof (cases r)
    case (Some c)
    with g g_ok show ?thesis by (simp add: getYearlyStats_def Let_def)
  next
    case None
    let ?yd = "Date_local tz y 0 1"
    obtain q svc2 where q: "query tz per_year ?yd st svc1 = (q, svc2)"
      by (cases "query tz per_year ?yd st svc1")
    from query_eq [OF q] g_ok have ok2: "cache_ok svc2" by (simp add: cache_ok_def)
    show ?thesis
    proof (cases q)
      case (Inl e)
      with None g q ok2 show ?thesis by (simp add: getYearlyStats_def Let_def)
    next
      case (Inr b)
      with query_eq [OF q] have b: "count_desc b" by (blast intro: getStatsByPeriod_count_desc)
      obtain t svc3 where t: "getMonthlyTrendForYear tz y st svc2 = (t, svc3)"
        by (cases "getMonthlyTrendForYear tz y st svc2")
      have "cache svc3 = cache svc2"
        using t monthlyTrendLoop_cache [of tz y 1 st "[]" svc2]
        by (simp add: getMonthlyTrendForYear_def)
      with ok2 have ok3: "cache_ok svc3" by (simp add: cache_ok_def)
      show ?thesis
      proof (cases t)
        case (Inl e)
        with None g q Inr t ok3 show ?thesis by (simp add: getYearlyStats_def Let_def)
      next
        case (Inr trend)
        have "stats_ok (Yearly \<lparr>y_year = y, y_totalKeystrokes = sum_count b,
                y_monthlyTrend = trend, y_keyBreakdown = b\<rparr>)"
          using b by (simp add: stats_ok_def keyBreakdown_def totalKeystrokes_def)
        with None g q \<open>q = Inr b\<close> t Inr ok3 show ?thesis
          by (simp add: getYearlyStats_def Let_def cache_ok_setCache)
      qed
    qed
  qed
qed

lemma getTopKeys_cache: "cache (snd (getTopKeys tz p a limit st svc)) = cache svc"
  by (auto simp: getTopKeys_def query_def split: sum.splits)

lemma reachable_cache_ok: "service_reachable svc \<Longrightarrow> cache_ok svc"
proof (induction rule: service_reachable.induct)
  case new_service
  show ?case by (simp add: cache_ok_def)
next
  case (after_getDailyStats svc now tz d st)
  then show ?case by (simp add: getDailyStats_ok)
next
  case (after_getMonthlyStats svc now tz y m st)
  then show ?case by (simp add: getMonthlyStats_ok)
next
  case (after_getYearlyStats svc now tz y st)
  then show ?case by (simp add: getYearlyStats_ok)
next
  case (after_getTopKeys svc tz p d limit st)
  then show ?case by (simp add: cache_ok_def getTopKeys_cache)
next
  case (after_clearCache svc)
  show ?case by (simp add: cache_ok_def clearCache_def)
qed

lemma year_abc:
  "getStatsByPeriod 0 per_year 1700000000000 repo_abc =
     Inr [\<lparr>ks_keyName = ''A'', ks_count = 2\<rparr>, \<lparr>ks_keyName = ''B'', ks_count = 1\<rparr>]"
  by (simp add: example_defs repo_eval date_eval cong: let_weak_cong)

lemma daily_abc:
  "fst (getDailyStats 0 0 1700000000000 repo_abc service_new) =
     Inr (Daily \<lparr>d_date = 1699920000000, d_totalKeystrokes = 2,
                 d_keyBreakdown = [\<lparr>ks_keyName = ''A'', ks_count = 2\<rparr>]\<rparr>)"
  by (simp add: example_defs repo_eval date_eval service_eval cong: let_weak_cong)

text \<open>
  Claim C9. The breakdown that \<^verbatim>\<open>getStatsByPeriod\<close> returns is sorted by count descending,
  for every store, granularity, anchor date and time zone: no entry is followed by one
  with a larger count. The same holds for what \<^verbatim>\<open>getTopKeys\<close> returns, and for the
  \<^verbatim>\<open>keyBreakdown\<close> of every daily, monthly and yearly result of a service, whether computed
  or served from its cache.
\<close>

theorem breakdown_sorted_by_count:
  "(getStatsByPeriod tz p anchor st = Inr b \<longrightarrow>
      (\<forall>i. Suc i < length b \<longrightarrow> ks_count (b ! Suc i) \<le> ks_count (b ! i))) \<and>
   (fst (getTopKeys tz p anchor limit st svc) = Inr b \<longrightarrow>
      (\<forall>i. Suc i < length b \<longrightarrow> ks_count (b ! Suc i) \<le> ks_count (b ! i))) \<and>
   (service_reachable svc \<and>
      (fst (getDailyStats now tz anchor st svc) = Inr c \<or>
       fst (getMonthlyStats now tz y m st svc) = Inr c \<or>
       fst (getYearlyStats now tz y st svc) = Inr c) \<longrightarrow>
      (\<forall>i. Suc i < length (keyBreakdown c) \<longrightarrow>
         ks_count (keyBreakdown c ! Suc i) \<le> ks_count (keyBreakdown c ! i)))"
proof (intro conjI impI allI)
  fix i assume "getStatsByPeriod tz p anchor st = Inr b" "Suc i < length b"
  then show "ks_count (b ! Suc i) \<le> ks_count (b ! i)"
    by (simp add: getStatsByPeriod_count_desc count_desc_adjacent)
next
  fix i assume "fst (getTopKeys tz p anchor limit st svc) = Inr b" "Suc i < length b"
  then show "ks_count (b ! Suc i) \<le> ks_count (b ! i)"
    by (simp add: getTopKeys_count_desc count_desc_adjacent)
next
  fix i
  assume a: "service_reachable svc \<and>
      (fst (getDailyStats now tz anchor st svc) = Inr c \<or>
       fst (getMonthlyStats now tz y m st svc) = Inr c \<or>
       fst (getYearlyStats now tz y st svc) = Inr c)"
    and i: "Suc i < length (keyBreakdown c)"
  from a have ok: "cache_ok svc" by (simp add: reachable_cache_ok)
  from a getDailyStats_ok [OF ok] getMonthlyStats_ok [OF ok] getYearlyStats_ok [OF ok]
  have "stats_ok c" by blast
  then have "count_desc (keyBreakdown c)" by (simp add: stats_ok_def)
  with i show "ks_count (keyBreakdown c ! Suc i) \<le> ks_count (keyBreakdown c ! i)"
    by (simp add: count_desc_adjacent)
qed

theorem breakdown_sorted_by_count_witness:
  "getStatsByPeriod 0 per_year 1700000000000 repo_abc =
     Inr [\<lparr>ks_keyName = ''A'', ks_count = 2\<rparr>, \<lparr>ks_keyName = ''B'', ks_count = 1\<rparr>] \<and>
   ks_count ([\<lparr>ks_keyName = ''A'', ks_count = 2\<rparr>, \<lparr>ks_keyName = ''B'', ks_count = 1\<rparr>] ! Suc 0)
     \<le> ks_count ([\<lparr>ks_keyName = ''A'', ks_count = 2\<rparr>, \<lparr>ks_keyName = ''B'', ks_count = 1\<rparr>] ! 0) \<and>
   service_reachable service_new \<and>
   fst (getDailyStats 0 0 1700000000000 repo_abc service_new) =
     Inr (Daily \<lparr>d_date = 1699920000000, d_totalKeystrokes = 2,
                 d_keyBreakdown = [\<lparr>ks_keyName = ''A'', ks_count = 2\<rparr>]\<rparr>)"
proof -
  have r: "service_reachable service_new"
    unfolding service_new_def by (rule service_reachable.new_service)
  from breakdown_sorted_by_count [where tz = 0 and p = per_year and anchor = 1700000000000
      and st = repo_abc and svc = service_new and now = 0
      and b = "[\<lparr>ks_keyName = ''A'', ks_count = 2\<rparr>, \<lparr>ks_keyName = ''B'', ks_count = 1\<rparr>]"]
    year_abc daily_abc r
  show ?thesis by simp
qed

section \<open>The service: totals and trends\<close>

lemma foldl_sum: "foldl (\<lambda>sum stat. sum + ks_count stat) a xs = a + sum_list (map ks_count xs)"
  by (induction xs arbitrary: a) simp_all

lemma sum_count_sum_list: "sum_count xs = sum_list (map ks_count xs)"
  by (simp add: sum_count_def foldl_sum)

text \<open>
  The part of the aggregation identity that holds throughout: in every result of a
  service the total is the sum of the counts of its breakdown.
\<close>

lemma total_is_sum_of_breakdown:
  assumes "service_reachable svc"
    and "fst (getDailyStats now tz anchor st svc) = Inr c \<or>
         fst (getMonthlyStats now tz y m st svc) = Inr c \<or>
         fst (getYearlyStats now tz y st svc) = Inr c"
  shows "totalKeystrokes c = sum_list (map ks_count (keyBreakdown c))"
proof -
  from assms(1) have ok: "cache_ok svc" by (rule reachable_cache_ok)
  from assms(2) getDailyStats_ok [OF ok] getMonthlyStats_ok [OF ok] getYearlyStats_ok [OF ok]
  have "stats_ok c" by blast
  then show ?thesis by (simp add: stats_ok_def sum_count_sum_list)
qed

text \<open>
  In a zone on UTC the monthly trend of the example store adds up to the yearly total:
  the one keystroke is counted in December.
\<close>

lemma yearly_trend_on_UTC:
  "fst (getYearlyStats 0 0 2024 repo_dec service_new) =
     Inr (Yearly \<lparr>y_year = 2024, y_totalKeystrokes = 1,
            y_monthlyTrend =
              [\<lparr>mc_month = 1, mc_count = 0\<rparr>, \<lparr>mc_month = 2, mc_count = 0\<rparr>,
               \<lparr>mc_month = 3, mc_count = 0\<rparr>, \<lparr>mc_month = 4, mc_count = 0\<rparr>,
               \<lparr>mc_month = 5, mc_count = 0\<rparr>, \<lparr>mc_month = 6, mc_count = 0\<rparr>,
               \<lparr>mc_month = 7, mc_count = 0\<rparr>, \<lparr>mc_month = 8, mc_count = 0\<rparr>,
               \<lparr>mc_month = 9, mc_count = 0\<rparr>, \<lparr>mc_month = 10, mc_count = 0\<rparr>,
               \<lparr>mc_month = 11, mc_count = 0\<rparr>, \<lparr>mc_month = 12, mc_count = 1\<rparr>],
            y_keyBreakdown = [\<lparr>ks_keyName = ''A'', ks_count = 1\<rparr>]\<rparr>)"
  by (simp add: example_defs repo_eval date_eval service_eval cong: let_weak_cong)

text \<open>
  Claim C1 fails on the code. On a machine five hours west of UTC, with one keystroke
  saved at noon UTC on 15 December 2024, \<^verbatim>\<open>getYearlyStats(2024)\<close> reports a total of 1
  and a monthly trend of twelve zeros: each month of the trend is queried with an anchor
  built by \<^verbatim>\<open>Date.UTC\<close>, which \<^verbatim>\<open>getStatsByPeriod\<close> reads in local time as the last day
  of the month before, so the trend covers December 2023 to November 2024.
\<close>

theorem getYearlyStats_trend_west_of_UTC:
  "fst (getYearlyStats 0 (- 300) 2024 repo_dec service_new) =
     Inr (Yearly \<lparr>y_year = 2024, y_totalKeystrokes = 1,
            y_monthlyTrend =
              [\<lparr>mc_month = 1, mc_count = 0\<rparr>, \<lparr>mc_month = 2, mc_count = 0\<rparr>,
               \<lparr>mc_month = 3, mc_count = 0\<rparr>, \<lparr>mc_month = 4, mc_count = 0\<rparr>,
               \<lparr>mc_month = 5, mc_count = 0\<rparr>, \<lparr>mc_month = 6, mc_count = 0\<rparr>,
               \<lparr>mc_month = 7, mc_count = 0\<rparr>, \<lparr>mc_month = 8, mc_count = 0\<rparr>,
               \<lparr>mc_month = 9, mc_count = 0\<rparr>, \<lparr>mc_month = 10, mc_count = 0\<rparr>,
               \<lparr>mc_month = 11, mc_count = 0\<rparr>, \<lparr>mc_month = 12, mc_count = 0\<rparr>],
            y_keyBreakdown = [\<lparr>ks_keyName = ''A'', ks_count = 1\<rparr>]\<rparr>)"
  by (simp add: example_defs repo_eval date_eval service_eval cong: let_weak_cong)

text \<open>
  The bounds of the month and year ranges write the year as \<^verbatim>\<open>${year}\<close>, without the
  zero padding that \<^verbatim>\<open>toISOString\<close> gives the stored date. For a year of three digits the
  range therefore misses the records that the day queries of the trend find: on UTC, the
  keystroke of January 999 is in the daily trend and not in the total.
\<close>

lemma monthly_trend_three_digit_year:
  "\<exists>r. fst (getMonthlyStats 0 0 999 1 repo_old service_new) = Inr (Monthly r) \<and>
     m_totalKeystrokes r = 0 \<and> sum_list (map dc_count (m_dailyTrend r)) = 1"
  by (simp add: example_defs repo_eval date_eval service_eval cong: let_weak_cong)

section \<open>Time zones\<close>

text \<open>
  What \<^verbatim>\<open>save\<close> stores does not depend on the zone: \<open>mk_row\<close> has no zone among its
  arguments, and the day query reads its anchor in UTC as well.
\<close>

lemma getStatsByPeriod_day_any_zone:
  "getStatsByPeriod tz per_day anchor st = getStatsByPeriod tz' per_day anchor st"
  by (simp add: getStatsByPeriod_def)

text \<open>
  Claim C2 fails on the code for the month and the year. Over the same store and with the
  same anchor, \<^verbatim>\<open>new Date('2024-12-01')\<close> (midnight UTC), the month query finds the
  December keystroke on a machine on UTC and nothing five hours west of it, where the
  anchor is read as 30 November. With the anchor \<^verbatim>\<open>new Date('2024-01-01')\<close> the year query
  finds the keystroke of 2024 on UTC and nothing five hours west, where the anchor is read
  as 31 December 2023.
\<close>

theorem getStatsByPeriod_depends_on_time_zone:
  "getStatsByPeriod 0 per_month (Date_UTC 2024 11 1) repo_dec
     = Inr [\<lparr>ks_keyName = ''A'', ks_count = 1\<rparr>] \<and>
   getStatsByPeriod (- 300) per_month (Date_UTC 2024 11 1) repo_dec = Inr [] \<and>
   getStatsByPeriod 0 per_year (Date_UTC 2024 0 1) repo_dec
     = Inr [\<lparr>ks_keyName = ''A'', ks_count = 1\<rparr>] \<and>
   getStatsByPeriod (- 300) per_year (Date_UTC 2024 0 1) repo_dec = Inr []"
  by (simp add: example_defs repo_eval date_eval cong: let_weak_cong)

end
